theory Spec2Isabelle
  imports Main
begin

section \<open>Qubes application menu: widgets and application object\<close>

text \<open>
  A shallow embedding of \<^verbatim>\<open>qubes_menu/custom_widgets.py\<close> and
  \<^verbatim>\<open>qubes_menu/appmenu.py\<close>. Widgets are records of the attributes the
  methods read and write, methods are functions from the object's state to its new
  state, and the signals the toolkit delivers are values of a datatype that a dispatch
  function hands to the connected handler.
\<close>

subsection \<open>Python values shared by both modules\<close>

text \<open>Object identity: every Python object the model has to tell apart has a reference.\<close>

type_synonym obj_ref = nat

datatype py_error = KeyError string | AssertionError

subsection \<open>custom_widgets.py: SelfAwareMenu\<close>

text \<open>
  \<^verbatim>\<open>OPEN_MENUS\<close> is a class attribute, one Python integer shared by all menus. The two
  static handlers are connected to the \<^verbatim>\<open>realize\<close> and \<^verbatim>\<open>deactivate\<close> signals of every
  instance; the counter is passed in and returned.
\<close>

definition OPEN_MENUS_initial :: int where
  "OPEN_MENUS_initial = 0"

definition add_to_open :: "int \<Rightarrow> int" where
  "add_to_open open_menus = open_menus + 1"

definition remove_from_open :: "int \<Rightarrow> int" where
  "remove_from_open open_menus = open_menus - 1"

datatype menu_signal = Realize obj_ref | Deactivate obj_ref

fun emit_menu_signal :: "menu_signal \<Rightarrow> int \<Rightarrow> int" where
  "emit_menu_signal (Realize m) open_menus = add_to_open open_menus"
| "emit_menu_signal (Deactivate m) open_menus = remove_from_open open_menus"

fun emit_menu_signals :: "menu_signal list \<Rightarrow> int \<Rightarrow> int" where
  "emit_menu_signals [] open_menus = open_menus"
| "emit_menu_signals (s # ss) open_menus = emit_menu_signals ss (emit_menu_signal s open_menus)"

text \<open>
  The menus that are open on the screen, kept beside the counter to compare the two:
  a menu is open from its \<^verbatim>\<open>realize\<close> to its \<^verbatim>\<open>deactivate\<close>.
\<close>

fun open_menus_after :: "menu_signal list \<Rightarrow> obj_ref set \<Rightarrow> obj_ref set" where
  "open_menus_after [] opened = opened"
| "open_menus_after (Realize m # ss) opened = open_menus_after ss (insert m opened)"
| "open_menus_after (Deactivate m # ss) opened = open_menus_after ss (opened - {m})"

text \<open>
  A signal sequence is orderly when a menu is realized only while it is not open and
  deactivated only while it is open, so that no menu is deactivated twice after one
  realize.
\<close>

fun orderly :: "menu_signal list \<Rightarrow> obj_ref set \<Rightarrow> bool" where
  "orderly [] opened = True"
| "orderly (Realize m # ss) opened = (m \<notin> opened \<and> orderly ss (insert m opened))"
| "orderly (Deactivate m # ss) opened = (m \<in> opened \<and> orderly ss (opened - {m}))"

subsection \<open>Toolkit values: pixbufs, images, style contexts, list boxes\<close>

text \<open>
  Modelled from the spec: \<^verbatim>\<open>load_icon\<close> of \<^verbatim>\<open>utils.py\<close> is not among the sources. Icon
  resolution falls back to a generic icon and never raises, so a call always yields a
  pixbuf; the pixbuf is identified by the icon name and size that were asked for.
\<close>

datatype icon_size = Default_size | LARGE_TOOLBAR | Pixel_size nat

datatype Pixbuf = Pixbuf string icon_size

definition load_icon :: "string \<Rightarrow> icon_size \<Rightarrow> Pixbuf" where
  "load_icon icon_name icon_sz = Pixbuf icon_name icon_sz"

text \<open>
  A style context holds a set of class names: \<^verbatim>\<open>add_class\<close> of a class already present
  and \<^verbatim>\<open>remove_class\<close> of an absent one change nothing.
\<close>

type_synonym StyleContext = "string set"

definition add_class :: "string \<Rightarrow> StyleContext \<Rightarrow> StyleContext" where
  "add_class c sc = insert c sc"

definition remove_class :: "string \<Rightarrow> StyleContext \<Rightarrow> StyleContext" where
  "remove_class c sc = sc - {c}"

definition has_class :: "string \<Rightarrow> StyleContext \<Rightarrow> bool" where
  "has_class c sc = (c \<in> sc)"

text \<open>
  The list box a row is placed in. The two counters record the calls of
  \<^verbatim>\<open>invalidate_sort\<close> and \<^verbatim>\<open>invalidate_filter\<close>; \<^verbatim>\<open>select_row\<close> sets the selected row
  (\<^verbatim>\<open>None\<close> clears the selection) and is recorded call by call.
\<close>

record ListBox =
  sort_invalidated :: nat
  filter_invalidated :: nat
  selected_row :: "obj_ref option"
  select_row_calls :: "obj_ref option list"

definition invalidate_sort :: "ListBox \<Rightarrow> ListBox" where
  "invalidate_sort lb = lb\<lparr>sort_invalidated := Suc (sort_invalidated lb)\<rparr>"

definition invalidate_filter :: "ListBox \<Rightarrow> ListBox" where
  "invalidate_filter lb = lb\<lparr>filter_invalidated := Suc (filter_invalidated lb)\<rparr>"

definition select_row :: "obj_ref option \<Rightarrow> ListBox \<Rightarrow> ListBox" where
  "select_row r lb = lb\<lparr>selected_row := r, select_row_calls := select_row_calls lb @ [r]\<rparr>"

subsection \<open>custom_widgets.py: NetworkIndicator\<close>

text \<open>
  The box and its two images, each with the \<^verbatim>\<open>visible\<close> and \<^verbatim>\<open>no-show-all\<close> properties
  the class sets. A new Gtk widget is not visible.
\<close>

record Image =
  image_pixbuf :: Pixbuf
  image_visible :: bool
  image_no_show_all :: bool
  image_tooltip :: string

record NetworkIndicator =
  indicator_visible :: bool
  network_on :: Image
  network_off :: Image
  indicator_style :: StyleContext

definition NetworkIndicator_init :: NetworkIndicator where
  "NetworkIndicator_init =
     \<lparr>indicator_visible = False,
      network_on = \<lparr>image_pixbuf = load_icon ''qappmenu-networking-yes'' LARGE_TOOLBAR,
                    image_visible = False, image_no_show_all = True,
                    image_tooltip = ''Qube is networked''\<rparr>,
      network_off = \<lparr>image_pixbuf = load_icon ''qappmenu-networking-no'' LARGE_TOOLBAR,
                     image_visible = False, image_no_show_all = True,
                     image_tooltip = ''Qube is not networked''\<rparr>,
      indicator_style = add_class ''network_indicator'' {}\<rparr>"

definition set_network_state :: "bool \<Rightarrow> NetworkIndicator \<Rightarrow> NetworkIndicator" where
  "set_network_state state ind =
     ind\<lparr>indicator_visible := True,
         network_on := (network_on ind)\<lparr>image_visible := state\<rparr>,
         network_off := (network_off ind)\<lparr>image_visible := \<not> state\<rparr>\<rparr>"

fun set_network_states :: "bool list \<Rightarrow> NetworkIndicator \<Rightarrow> NetworkIndicator" where
  "set_network_states [] ind = ind"
| "set_network_states (s # ss) ind = set_network_states ss (set_network_state s ind)"

subsection \<open>vm_manager.py: VMEntry\<close>

text \<open>
  Modelled from the spec: the class \<^verbatim>\<open>VMEntry\<close> of \<^verbatim>\<open>vm_manager.py\<close> is not among the
  sources. Its attributes are those the spec's data model lists and the widgets read.
  \<^verbatim>\<open>power_state\<close> is the string the widgets compare with \<^verbatim>\<open>'Running'\<close>; \<^verbatim>\<open>parent_vm\<close> is
  an optional name, tested by the widgets for Python truth (\<^verbatim>\<open>None\<close> and the empty
  string are false).
\<close>

record VMEntry =
  vm_name :: string
  power_state :: string
  parent_vm :: "string option"
  is_dispvm_template :: bool
  has_network :: bool
  vm_icon_name :: string
  sort_name :: string

definition truthy :: "string option \<Rightarrow> bool" where
  "truthy v = (case v of None \<Rightarrow> False | Some s \<Rightarrow> s \<noteq> [])"

subsection \<open>custom_widgets.py: HoverListBox, VMRow, SearchVMRow, AnyVMRow\<close>

text \<open>
  \<^verbatim>\<open>HoverListBox\<close> is the base class of the rows: the row's own identity, its style
  context, the children packed into \<^verbatim>\<open>main_box\<close> in order, and the list box that is its
  parent once it has been added to one. A row is selected when its parent's selected row
  is the row itself.
\<close>

datatype box_child = Dispvm_icon | Icon_img | Label

record HoverListBox =
  self_ref :: obj_ref
  mouse :: bool
  style_context :: StyleContext
  main_box :: "box_child list"
  main_box_shown :: bool
  parent :: "ListBox option"

definition HoverListBox_init :: "obj_ref \<Rightarrow> HoverListBox" where
  "HoverListBox_init ref =
     \<lparr>self_ref = ref, mouse = False, style_context = {}, main_box = [],
      main_box_shown = False, parent = None\<rparr>"

definition is_selected :: "'a HoverListBox_scheme \<Rightarrow> bool" where
  "is_selected row =
     (case parent row of None \<Rightarrow> False | Some lb \<Rightarrow> selected_row lb = Some (self_ref row))"

text \<open>
  The little image a row of a disposable qube shows before its icon; the attribute
  \<^verbatim>\<open>dispvm_icon\<close> exists only on rows whose entry has a parent.
\<close>

record DispvmIcon =
  dispvm_pixbuf :: Pixbuf
  dispvm_style :: StyleContext
  dispvm_valign_start :: bool

datatype row_class = VMRow_class | SearchVMRow_class

record VMRow = HoverListBox +
  row_class :: row_class
  vm_entry :: VMEntry
  row_vm_name :: string
  icon_img :: "Pixbuf option"
  dispvm_icon :: "DispvmIcon option"
  label_text :: string

definition update_style :: "bool \<Rightarrow> VMRow \<Rightarrow> VMRow" where
  "update_style update_power_state row =
     (let sc = style_context row;
          sc1 = (if is_dispvm_template (vm_entry row) then add_class ''dvm_template_entry'' sc
                 else if truthy (parent_vm (vm_entry row)) then add_class ''dispvm_entry'' sc
                 else remove_class ''dvm_template_entry'' (remove_class ''dispvm_entry'' sc));
          sc2 = (if update_power_state
                 then (if power_state (vm_entry row) = ''Running''
                       then add_class ''running_vm'' sc1
                       else remove_class ''running_vm'' sc1)
                 else sc1)
      in row\<lparr>style_context := sc2\<rparr>)"

text \<open>
  \<^verbatim>\<open>VMRow.update_contents\<close>; the parameters are in the order of the source:
  \<^verbatim>\<open>update_power_state\<close>, \<^verbatim>\<open>update_label\<close>, \<^verbatim>\<open>update_has_network\<close>, \<^verbatim>\<open>update_type\<close>.
\<close>

definition update_contents :: "bool \<Rightarrow> bool \<Rightarrow> bool \<Rightarrow> bool \<Rightarrow> VMRow \<Rightarrow> VMRow" where
  "update_contents update_power_state update_label update_has_network update_type row =
     (let r1 = (if update_label
                then row\<lparr>icon_img := Some (load_icon (vm_icon_name (vm_entry row)) Default_size)\<rparr>
                else row);
          r2 = (if update_type \<or> update_power_state
                then (let r = update_style update_power_state r1
                      in case parent r of
                           None \<Rightarrow> r
                         | Some lb \<Rightarrow>
                             r\<lparr>parent := Some (select_row None
                                             (invalidate_filter (invalidate_sort lb)))\<rparr>)
                else r1);
          r3 = (if update_has_network
                then (case parent r2 of
                        None \<Rightarrow> r2
                      | Some lb \<Rightarrow>
                          if is_selected r2
                          then r2\<lparr>parent := Some (select_row (Some (self_ref r2))
                                                  (select_row None lb))\<rparr>
                          else r2)
                else r2)
      in r3\<lparr>main_box_shown := True\<rparr>)"

text \<open>\<^verbatim>\<open>SearchVMRow.update_contents\<close>: search rows do not show power state.\<close>

definition SearchVMRow_update_contents ::
    "bool \<Rightarrow> bool \<Rightarrow> bool \<Rightarrow> bool \<Rightarrow> VMRow \<Rightarrow> VMRow" where
  "SearchVMRow_update_contents update_power_state update_label update_has_network update_type row =
     update_contents False update_label False update_type row"

text \<open>The method a call \<^verbatim>\<open>row.update_contents(...)\<close> reaches, by the row's class.\<close>

definition call_update_contents :: "bool \<Rightarrow> bool \<Rightarrow> bool \<Rightarrow> bool \<Rightarrow> VMRow \<Rightarrow> VMRow" where
  "call_update_contents update_power_state update_label update_has_network update_type row =
     (case row_class row of
        VMRow_class \<Rightarrow>
          update_contents update_power_state update_label update_has_network update_type row
      | SearchVMRow_class \<Rightarrow>
          SearchVMRow_update_contents update_power_state update_label update_has_network
            update_type row)"

text \<open>
  \<^verbatim>\<open>VMRow.__init__\<close>, which \<^verbatim>\<open>SearchVMRow\<close> inherits: the class decides which
  \<^verbatim>\<open>update_contents\<close> the last statement calls.
\<close>

definition VMRow_init :: "row_class \<Rightarrow> obj_ref \<Rightarrow> VMEntry \<Rightarrow> VMRow" where
  "VMRow_init cls ref entry =
     (let base = HoverListBox_init ref;
          icon = (if truthy (parent_vm entry)
                  then Some \<lparr>dispvm_pixbuf = load_icon ''qappmenu-dispvm-child'' (Pixel_size 15),
                             dispvm_style = add_class ''dispvm_icon'' {},
                             dispvm_valign_start = True\<rparr>
                  else None);
          row = \<lparr>self_ref = self_ref base, mouse = mouse base,
                 style_context = add_class ''vm_entry'' (style_context base),
                 main_box = main_box base
                   @ (if truthy (parent_vm entry) then [Dispvm_icon] else [])
                   @ [Icon_img] @ [Label],
                 main_box_shown = main_box_shown base, parent = parent base,
                 row_class = cls, vm_entry = entry, row_vm_name = vm_name entry,
                 icon_img = None, dispvm_icon = icon, label_text = vm_name entry\<rparr>
      in call_update_contents True True True True row)"

definition sort_order :: "VMRow \<Rightarrow> string" where
  "sort_order row = sort_name (vm_entry row)"

text \<open>
  Calls of \<^verbatim>\<open>update_style\<close> over the life of a row. The row holds a reference to an
  entry that the VM manager changes between the calls, so each call comes with the
  entry's contents at that moment.
\<close>

fun update_style_calls :: "(VMEntry \<times> bool) list \<Rightarrow> VMRow \<Rightarrow> VMRow" where
  "update_style_calls [] row = row"
| "update_style_calls ((entry, update_power_state) # cs) row =
     update_style_calls cs (update_style update_power_state (row\<lparr>vm_entry := entry\<rparr>))"

text \<open>\<^verbatim>\<open>AnyVMRow\<close>, the generic row of the search tab: it has no entry and no style method.\<close>

record AnyVMRow = HoverListBox +
  any_vm_name :: "string option"
  any_sort_order :: string
  any_label_markup :: string

definition AnyVMRow_init :: "obj_ref \<Rightarrow> AnyVMRow" where
  "AnyVMRow_init ref =
     (let base = HoverListBox_init ref
      in \<lparr>self_ref = self_ref base, mouse = mouse base,
          style_context = add_class ''vm_entry'' (style_context base),
          main_box = main_box base @ [Icon_img] @ [Label],
          main_box_shown = True, parent = parent base,
          any_vm_name = None, any_sort_order = [],
          any_label_markup = ''<b>Any qube</b>''\<rparr>)"

subsection \<open>appmenu.py: the objects an AppMenu holds\<close>

text \<open>
  What the packaged resources supply: the Glade description of the main window and of
  the notebook (the names of its page widgets in order, and the page shown at first),
  and the highlight tag \<^verbatim>\<open>load_style\<close> computes from the colours of the stylesheet.
  The files are not among the sources, so the methods take them as a parameter.
\<close>

record Resources =
  glade_window_visible :: bool
  glade_page_names :: "string list"
  glade_current_page :: int
  css_highlight_tag :: string

record Window =
  window_visible :: bool

record Notebook =
  page_names :: "string list"
  current_page :: int

datatype class_name =
    Builder_class | DesktopFileManager_class | VMManager_class
  | SearchPage_class | AppPage_class | FavoritesPage_class | SettingsPage_class

text \<open>
  Modelled from the spec: the page classes (\<^verbatim>\<open>search_page.py\<close>, \<^verbatim>\<open>application_page.py\<close>,
  \<^verbatim>\<open>favorites_page.py\<close>, \<^verbatim>\<open>settings_page.py\<close>, with \<^verbatim>\<open>MenuPage\<close> of \<^verbatim>\<open>page_handler.py\<close>)
  are not among the sources. Pages are consumers outside the core that work on the
  model objects they are handed: a page is the references its constructor received,
  and the number of times \<^verbatim>\<open>initialize_page\<close> has been called on it.
\<close>

record MenuPage =
  page_ref :: obj_ref
  page_class :: class_name
  page_qapp :: "obj_ref option"
  page_vm_manager :: "obj_ref option"
  page_builder :: obj_ref
  page_desktop_file_manager :: obj_ref
  page_dispatcher :: "obj_ref option"
  initialized :: nat

definition initialize_page :: "MenuPage \<Rightarrow> MenuPage" where
  "initialize_page page = page\<lparr>initialized := Suc (initialized page)\<rparr>"

datatype task = Listen_for_events obj_ref

text \<open>The calls an AppMenu makes on its widgets and on the event loop, in order.\<close>

datatype ui_call =
    Perform_setup
  | Initialize_page string
  | Show_all
  | Hide
  | Present
  | Set_current_page int
  | Grab_search_focus
  | Ensure_future task
  | Run_until_complete

text \<open>
  The attributes of \<^verbatim>\<open>AppMenu.__init__\<close>, in its order. \<^verbatim>\<open>handlers\<close> is a dictionary
  whose values are visited in insertion order, hence a list of pairs; a widget taken
  from the builder is known by its Glade name. Three more fields
  keep the books: the next unused object reference, the objects constructed so far with
  their classes, and the calls made so far.
\<close>

record AppMenu =
  qapp :: obj_ref
  dispatcher :: obj_ref
  primary :: bool
  keep_visible :: bool
  initial_page :: int
  start_in_background :: bool
  builder :: "obj_ref option"
  main_window :: "Window option"
  main_notebook :: "Notebook option"
  fav_app_list :: "string option"
  sys_tools_list :: "string option"
  desktop_file_manager :: "obj_ref option"
  vm_manager :: "obj_ref option"
  handlers :: "(string \<times> MenuPage) list"
  power_button :: "string option"
  highlight_tag :: "string option"
  tasks :: "task list"
  next_ref :: obj_ref
  constructed :: "(obj_ref \<times> class_name) list"
  trace :: "ui_call list"

definition AppMenu_init :: "obj_ref \<Rightarrow> obj_ref \<Rightarrow> AppMenu" where
  "AppMenu_init qapp_ref dispatcher_ref =
     \<lparr>qapp = qapp_ref, dispatcher = dispatcher_ref, primary = False, keep_visible = False,
      initial_page = 1, start_in_background = False, builder = None, main_window = None,
      main_notebook = None, fav_app_list = None, sys_tools_list = None,
      desktop_file_manager = None, vm_manager = None, handlers = [], power_button = None,
      highlight_tag = None, tasks = [],
      next_ref = Suc (max qapp_ref dispatcher_ref), constructed = [], trace = []\<rparr>"

text \<open>Calling a constructor: the new object gets the next reference and is recorded.\<close>

definition construct :: "class_name \<Rightarrow> AppMenu \<Rightarrow> obj_ref \<times> AppMenu" where
  "construct cls app =
     (next_ref app,
      app\<lparr>next_ref := Suc (next_ref app),
          constructed := constructed app @ [(next_ref app, cls)]\<rparr>)"

definition log_call :: "ui_call \<Rightarrow> AppMenu \<Rightarrow> AppMenu" where
  "log_call c app = app\<lparr>trace := trace app @ [c]\<rparr>"

text \<open>\<^verbatim>\<open>handlers[name].initialize_page()\<close> for a name that is a key of the dictionary.\<close>

fun initialize_handler :: "string \<Rightarrow> (string \<times> MenuPage) list \<Rightarrow> (string \<times> MenuPage) list" where
  "initialize_handler name [] = []"
| "initialize_handler name ((k, page) # hs) =
     (if k = name then (k, initialize_page page) # hs
      else (k, page) # initialize_handler name hs)"

text \<open>
  \<^verbatim>\<open>_handle_page_switch\<close>, connected to the notebook's \<^verbatim>\<open>switch-page\<close> signal: the handler
  registered under the name of the page widget, if there is one, is initialized.
\<close>

definition handle_page_switch :: "string \<Rightarrow> AppMenu \<Rightarrow> AppMenu" where
  "handle_page_switch page_name app =
     (case map_of (handlers app) page_name of
        None \<Rightarrow> app
      | Some page_handler \<Rightarrow>
          log_call (Initialize_page page_name)
            (app\<lparr>handlers := initialize_handler page_name (handlers app)\<rparr>))"

text \<open>
  \<^verbatim>\<open>main_notebook.set_current_page(n)\<close>: a negative number means the last page, a
  number beyond the pages does nothing, and \<^verbatim>\<open>switch-page\<close> is emitted when the page
  shown changes.
\<close>

definition set_current_page :: "int \<Rightarrow> AppMenu \<Rightarrow> AppMenu" where
  "set_current_page n app =
     (case main_notebook app of
        None \<Rightarrow> app
      | Some nb \<Rightarrow>
          (let app1 = log_call (Set_current_page n) app;
               count = int (length (page_names nb));
               target = (if n < 0 then count - 1 else n)
           in if 0 \<le> target \<and> target < count \<and> target \<noteq> current_page nb
              then handle_page_switch (page_names nb ! nat target)
                     (app1\<lparr>main_notebook := Some (nb\<lparr>current_page := target\<rparr>)\<rparr>)
              else app1))"

definition window_show_all :: "AppMenu \<Rightarrow> AppMenu" where
  "window_show_all app =
     log_call Show_all
       (app\<lparr>main_window := map_option (\<lambda>w. w\<lparr>window_visible := True\<rparr>) (main_window app)\<rparr>)"

definition window_hide :: "AppMenu \<Rightarrow> AppMenu" where
  "window_hide app =
     log_call Hide
       (app\<lparr>main_window := map_option (\<lambda>w. w\<lparr>window_visible := False\<rparr>) (main_window app)\<rparr>)"

definition window_present :: "AppMenu \<Rightarrow> AppMenu" where
  "window_present app =
     log_call Present
       (app\<lparr>main_window := map_option (\<lambda>w. w\<lparr>window_visible := True\<rparr>) (main_window app)\<rparr>)"

subsection \<open>appmenu.py: the methods of AppMenu\<close>

definition load_style :: "Resources \<Rightarrow> AppMenu \<Rightarrow> AppMenu" where
  "load_style res app = app\<lparr>highlight_tag := Some (css_highlight_tag res)\<rparr>"

text \<open>
  \<^verbatim>\<open>perform_setup\<close>. The two list boxes are asked of the builder before the Glade file is
  loaded, so both attributes stay \<^verbatim>\<open>None\<close>. The four pages are constructed in the order
  of the dictionary display, each with the arguments the source passes.
\<close>

definition perform_setup :: "Resources \<Rightarrow> AppMenu \<Rightarrow> AppMenu" where
  "perform_setup res app =
     (let app0 = load_style res (log_call Perform_setup app);
          (b, app1) = construct Builder_class app0;
          app2 = app1\<lparr>builder := Some b, fav_app_list := None, sys_tools_list := None,
                     main_window := Some \<lparr>window_visible = glade_window_visible res\<rparr>,
                     main_notebook := Some \<lparr>page_names = glade_page_names res,
                                            current_page = glade_current_page res\<rparr>\<rparr>;
          (dfm, app3) = construct DesktopFileManager_class app2;
          app4 = app3\<lparr>desktop_file_manager := Some dfm\<rparr>;
          (vmm, app5) = construct VMManager_class app4;
          app6 = app5\<lparr>vm_manager := Some vmm\<rparr>;
          (sp, app7) = construct SearchPage_class app6;
          (ap, app8) = construct AppPage_class app7;
          (fp, app9) = construct FavoritesPage_class app8;
          (tp, app10) = construct SettingsPage_class app9
      in app10\<lparr>handlers :=
           [(''search_page'',
               \<lparr>page_ref = sp, page_class = SearchPage_class, page_qapp = None,
                page_vm_manager = vm_manager app10, page_builder = b,
                page_desktop_file_manager = dfm, page_dispatcher = None, initialized = 0\<rparr>),
            (''app_page'',
               \<lparr>page_ref = ap, page_class = AppPage_class, page_qapp = None,
                page_vm_manager = vm_manager app10, page_builder = b,
                page_desktop_file_manager = dfm, page_dispatcher = None, initialized = 0\<rparr>),
            (''favorites_page'',
               \<lparr>page_ref = fp, page_class = FavoritesPage_class, page_qapp = Some (qapp app10),
                page_vm_manager = vm_manager app10, page_builder = b,
                page_desktop_file_manager = dfm, page_dispatcher = Some (dispatcher app10),
                initialized = 0\<rparr>),
            (''settings_page'',
               \<lparr>page_ref = tp, page_class = SettingsPage_class, page_qapp = Some (qapp app10),
                page_vm_manager = None, page_builder = b,
                page_desktop_file_manager = dfm, page_dispatcher = Some (dispatcher app10),
                initialized = 0\<rparr>)],
          power_button := Some ''power_button''\<rparr>)"

text \<open>\<^verbatim>\<open>initialize_state\<close>: the loop over \<^verbatim>\<open>handlers.values()\<close> initializes every page.\<close>

fun initialize_pages :: "(string \<times> MenuPage) list \<Rightarrow> (string \<times> MenuPage) list" where
  "initialize_pages [] = []"
| "initialize_pages ((k, page) # hs) = (k, initialize_page page) # initialize_pages hs"

definition initialize_state :: "AppMenu \<Rightarrow> AppMenu" where
  "initialize_state app =
     (let app1 = (case main_notebook app of
                    None \<Rightarrow> app
                  | Some nb \<Rightarrow> set_current_page (initial_page app) app)
      in app1\<lparr>handlers := initialize_pages (handlers app1),
              trace := trace app1 @ map (\<lambda>h. Initialize_page (fst h)) (handlers app1)\<rparr>)"

text \<open>
  \<^verbatim>\<open>do_activate\<close>. On the first start the method ends inside
  \<^verbatim>\<open>loop.run_until_complete\<close>, where the event loop runs for the rest of the program and
  dispatches every later signal; the result is the state those later handlers find.
  The resizing of a window taller than nine tenths of the screen is left out: no
  attribute kept here depends on the geometry.
\<close>

definition do_activate :: "Resources \<Rightarrow> AppMenu \<Rightarrow> py_error + AppMenu" where
  "do_activate res app =
     (if \<not> primary app
      then (let app1 = (perform_setup res app)\<lparr>primary := True\<rparr>
            in case main_window app1 of
                 None \<Rightarrow> Inl AssertionError
               | Some w \<Rightarrow>
                   (let app2 = (if \<not> start_in_background app1
                                then window_show_all app1 else app1);
                        app3 = initialize_state app2;
                        listener = Listen_for_events (dispatcher app3);
                        app4 = log_call (Ensure_future listener) (app3\<lparr>tasks := [listener]\<rparr>)
                    in Inr (log_call Run_until_complete app4)))
      else (let app1 = (case main_notebook app of
                          None \<Rightarrow> app
                        | Some nb \<Rightarrow> set_current_page (initial_page app) app)
            in case main_window app1 of
                 None \<Rightarrow> Inr app1
               | Some w \<Rightarrow>
                   if window_visible w \<and> \<not> keep_visible app1
                   then Inr (window_hide app1)
                   else Inr (window_present app1)))"

text \<open>
  \<^verbatim>\<open>do_command_line\<close>: the options that are present in the dictionary set the attributes,
  then the application is activated.
\<close>

record Options =
  option_keep_visible :: bool
  option_page :: "int option"
  option_background :: bool

definition do_command_line :: "Resources \<Rightarrow> Options \<Rightarrow> AppMenu \<Rightarrow> py_error + AppMenu" where
  "do_command_line res options app =
     (let app1 = (if option_keep_visible options then app\<lparr>keep_visible := True\<rparr> else app);
          app2 = (case option_page options of
                    None \<Rightarrow> app1
                  | Some n \<Rightarrow> app1\<lparr>initial_page := n\<rparr>);
          app3 = (if option_background options
                  then app2\<lparr>start_in_background := True\<rparr> else app2)
      in do_activate res app3)"

text \<open>\<^verbatim>\<open>hide_menu\<close>: \<^verbatim>\<open>handlers['search_page']\<close> raises \<^verbatim>\<open>KeyError\<close> when the key is missing.\<close>

definition hide_menu :: "AppMenu \<Rightarrow> py_error + AppMenu" where
  "hide_menu app =
     (case map_of (handlers app) ''search_page'' of
        None \<Rightarrow> Inl (KeyError ''search_page'')
      | Some page \<Rightarrow>
          (let app1 = log_call (Initialize_page ''search_page'')
                        (app\<lparr>handlers := initialize_handler ''search_page'' (handlers app)\<rparr>)
           in if \<not> keep_visible app1 \<and> main_window app1 \<noteq> None
              then Inr (window_hide app1)
              else Inr app1))"

definition KEY_Escape :: int where
  "KEY_Escape = 65307"

definition key_press :: "int \<Rightarrow> AppMenu \<Rightarrow> py_error + AppMenu" where
  "key_press keyval app = (if keyval = KEY_Escape then hide_menu app else Inr app)"

text \<open>
  \<^verbatim>\<open>_key_pressed\<close>, the second handler of key presses: a key that is not a navigation key
  (arrows, escape, return, tab) moves the focus to the search entry and opens the
  search page, which is page 0.
\<close>

definition navigation_keys :: "int list" where
  "navigation_keys = [65362, 65364, 65361, 65363, KEY_Escape, 65293, 65289]"

definition key_pressed :: "int \<Rightarrow> AppMenu \<Rightarrow> AppMenu" where
  "key_pressed keyval app =
     (if keyval \<notin> set navigation_keys
      then (case map_of (handlers app) ''search_page'' of
              None \<Rightarrow> app
            | Some search_page \<Rightarrow>
                if page_class search_page \<noteq> SearchPage_class then app
                else (let app1 = log_call Grab_search_focus app
                      in case main_notebook app1 of
                           None \<Rightarrow> app1
                         | Some nb \<Rightarrow>
                             if current_page nb \<noteq> 0 then set_current_page 0 app1
                             else app1))
      else app)"

text \<open>\<^verbatim>\<open>_focus_out\<close> reads the class attribute \<^verbatim>\<open>SelfAwareMenu.OPEN_MENUS\<close>.\<close>

definition focus_out :: "int \<Rightarrow> AppMenu \<Rightarrow> py_error + AppMenu" where
  "focus_out open_menus app = (if open_menus \<le> 0 then hide_menu app else Inr app)"

subsection \<open>appmenu.py: the end of the first activation\<close>

text \<open>
  The last statement of the first activation is
  \<^verbatim>\<open>loop.run_until_complete(asyncio.wait(self.tasks, return_when=asyncio.FIRST_EXCEPTION))\<close>.
  How a task ends is an input here: it runs for ever, returns, or raises. By the
  documentation of \<^verbatim>\<open>asyncio.wait\<close>, with \<^verbatim>\<open>FIRST_EXCEPTION\<close> the call returns when a task
  has raised, or when all tasks are finished if none raises; its value is the pair of the
  done and the pending tasks, and it does not raise what a task raised: the exception
  stays in the task until its \<^verbatim>\<open>result()\<close> or \<^verbatim>\<open>exception()\<close> is asked for. The done
  tasks are those that finish at all, which is exact for the single task the
  application waits for.
\<close>

datatype task_outcome = Runs_forever | Returns | Raises string

fun finished :: "task_outcome \<Rightarrow> bool" where
  "finished Runs_forever = False"
| "finished Returns = True"
| "finished (Raises e) = True"

fun raised :: "task_outcome \<Rightarrow> bool" where
  "raised (Raises e) = True"
| "raised outcome = False"

record wait_result =
  wait_done :: "(task \<times> task_outcome) list"
  wait_pending :: "task list"

definition asyncio_wait_FIRST_EXCEPTION ::
    "(task \<times> task_outcome) list \<Rightarrow> wait_result option" where
  "asyncio_wait_FIRST_EXCEPTION ts =
     (if list_ex (\<lambda>t. raised (snd t)) ts \<or> list_all (\<lambda>t. finished (snd t)) ts
      then Some \<lparr>wait_done = filter (\<lambda>t. finished (snd t)) ts,
                 wait_pending = map fst (filter (\<lambda>t. \<not> finished (snd t)) ts)\<rparr>
      else None)"

text \<open>
  What a call of \<^verbatim>\<open>do_activate\<close> gives back to its caller, \<^verbatim>\<open>None\<close> when it never
  returns. A later activation returns at once. The first one returns when the wait
  does; \<^verbatim>\<open>run_until_complete\<close> hands it the value of the wait, the statement drops
  that value, and the method ends.
\<close>

definition do_activate_returns ::
    "Resources \<Rightarrow> (task \<Rightarrow> task_outcome) \<Rightarrow> AppMenu \<Rightarrow> (py_error + AppMenu) option" where
  "do_activate_returns res outcome app =
     (case do_activate res app of
        Inl err \<Rightarrow> Some (Inl err)
      | Inr app' \<Rightarrow>
          if primary app then Some (Inr app')
          else (case asyncio_wait_FIRST_EXCEPTION (map (\<lambda>t. (t, outcome t)) (tasks app')) of
                  None \<Rightarrow> None
                | Some dropped \<Rightarrow> Some (Inr app')))"

subsection \<open>The running program\<close>

text \<open>
  The program is the counter of open menus and the application object. The main loop
  hands each event to its handler: a start of the program from the command line or a
  plain activation, a focus-out or key press on the main window (a key press goes to
  both of its handlers in the order they were connected), a signal of a popup menu. An exception that leaves a handler is reported and the loop goes on with the
  state as it is; \<^verbatim>\<open>hide_menu\<close> raises before it has changed anything.
\<close>

record Program =
  OPEN_MENUS :: int
  app_menu :: AppMenu

datatype event =
    Command_line Options
  | Activate
  | Focus_out
  | Key_press int
  | Menu_signal menu_signal

definition keep_on_error :: "AppMenu \<Rightarrow> py_error + AppMenu \<Rightarrow> AppMenu" where
  "keep_on_error app result = (case result of Inl err \<Rightarrow> app | Inr app' \<Rightarrow> app')"

fun dispatch :: "Resources \<Rightarrow> event \<Rightarrow> Program \<Rightarrow> Program" where
  "dispatch res (Command_line options) prog =
     prog\<lparr>app_menu := keep_on_error (app_menu prog)
                         (do_command_line res options (app_menu prog))\<rparr>"
| "dispatch res Activate prog =
     prog\<lparr>app_menu := keep_on_error (app_menu prog) (do_activate res (app_menu prog))\<rparr>"
| "dispatch res Focus_out prog =
     prog\<lparr>app_menu := keep_on_error (app_menu prog)
                         (focus_out (OPEN_MENUS prog) (app_menu prog))\<rparr>"
| "dispatch res (Key_press keyval) prog =
     prog\<lparr>app_menu := key_pressed keyval
                         (keep_on_error (app_menu prog) (key_press keyval (app_menu prog)))\<rparr>"
| "dispatch res (Menu_signal s) prog =
     prog\<lparr>OPEN_MENUS := emit_menu_signal s (OPEN_MENUS prog)\<rparr>"

fun run :: "Resources \<Rightarrow> event list \<Rightarrow> Program \<Rightarrow> Program" where
  "run res [] prog = prog"
| "run res (ev # evs) prog = run res evs (dispatch res ev prog)"

definition main :: "obj_ref \<Rightarrow> obj_ref \<Rightarrow> Program" where
  "main qapp_ref dispatcher_ref =
     \<lparr>OPEN_MENUS = OPEN_MENUS_initial, app_menu = AppMenu_init qapp_ref dispatcher_ref\<rparr>"

text \<open>The events that reach \<^verbatim>\<open>do_activate\<close>.\<close>

fun activations :: "event list \<Rightarrow> nat" where
  "activations [] = 0"
| "activations (Command_line options # evs) = Suc (activations evs)"
| "activations (Activate # evs) = Suc (activations evs)"
| "activations (ev # evs) = activations evs"

subsection \<open>Measures and sample values\<close>

text \<open>How often \<^verbatim>\<open>perform_setup\<close> has run, read off the calls made so far.\<close>

definition setup_calls :: "AppMenu \<Rightarrow> nat" where
  "setup_calls app = count_list (trace app) Perform_setup"

text \<open>
  Two states of an application with the same setup: the same flag, the same number of
  setups, the same constructed objects and model managers, the same options, handlers
  under the same names with the same constructor arguments, and a window and notebook
  in both or in neither.
\<close>

definition page_arguments ::
    "string \<times> MenuPage \<Rightarrow> string \<times> class_name \<times> obj_ref option \<times> obj_ref option \<times> obj_ref \<times> obj_ref \<times> obj_ref option" where
  "page_arguments h =
     (fst h, page_class (snd h), page_qapp (snd h), page_vm_manager (snd h),
      page_builder (snd h), page_desktop_file_manager (snd h), page_dispatcher (snd h))"

definition same_setup :: "AppMenu \<Rightarrow> AppMenu \<Rightarrow> bool" where
  "same_setup app app' =
     (primary app' = primary app
      \<and> qapp app' = qapp app
      \<and> dispatcher app' = dispatcher app
      \<and> setup_calls app' = setup_calls app
      \<and> constructed app' = constructed app
      \<and> next_ref app' = next_ref app
      \<and> desktop_file_manager app' = desktop_file_manager app
      \<and> vm_manager app' = vm_manager app
      \<and> keep_visible app' = keep_visible app
      \<and> initial_page app' = initial_page app
      \<and> start_in_background app' = start_in_background app
      \<and> map page_arguments (handlers app') = map page_arguments (handlers app)
      \<and> (main_window app' = None) = (main_window app = None)
      \<and> (main_notebook app' = None) = (main_notebook app = None))"

definition sample_entry :: VMEntry where
  "sample_entry =
     \<lparr>vm_name = ''disp1234'', power_state = ''Running'', parent_vm = Some ''default-dvm'',
      is_dispvm_template = False, has_network = True, vm_icon_name = ''dispvm-red'',
      sort_name = ''default-dvm:disp1234''\<rparr>"

definition sample_resources :: Resources where
  "sample_resources =
     \<lparr>glade_window_visible = False,
      glade_page_names = [''search_page'', ''app_page'', ''favorites_page'', ''settings_page''],
      glade_current_page = 0,
      css_highlight_tag = ''<span>''\<rparr>"

section \<open>Properties\<close>

subsection \<open>The counter of open menus\<close>

lemma finite_open_menus_after:
  "finite opened \<Longrightarrow> finite (open_menus_after ss opened)"
  by (induction ss opened rule: open_menus_after.induct) simp_all

lemma counter_tracks_open_menus:
  "finite opened \<Longrightarrow> orderly ss opened \<Longrightarrow>
   emit_menu_signals ss (int (card opened)) = int (card (open_menus_after ss opened))"
proof (induction ss opened rule: orderly.induct)
  case (1 opened)
  then show ?case by simp
next
  case (2 m ss opened)
  then have "emit_menu_signals ss (int (card (insert m opened)))
           = int (card (open_menus_after ss (insert m opened)))"
    by simp
  moreover from 2 have "int (card (insert m opened)) = int (card opened) + 1"
    by simp
  ultimately show ?case by (simp add: add_to_open_def)
next
  case (3 m ss opened)
  then have "emit_menu_signals ss (int (card (opened - {m})))
           = int (card (open_menus_after ss (opened - {m})))"
    by simp
  moreover from 3 have "0 < card opened"
    by (auto simp: card_gt_0_iff)
  with 3 have "int (card (opened - {m})) = int (card opened) - 1"
    by (simp add: card_Diff_singleton)
  ultimately show ?case by (simp add: remove_from_open_def)
qed

lemma orderly_take:
  "orderly ss opened \<Longrightarrow> orderly (take k ss) opened"
proof (induction ss opened arbitrary: k rule: orderly.induct)
  case (1 opened)
  then show ?case by simp
next
  case (2 m ss opened)
  then show ?case by (cases k) simp_all
next
  case (3 m ss opened)
  then show ?case by (cases k) simp_all
qed

text \<open>
  C1. Every \<^verbatim>\<open>realize\<close> adds exactly one to \<^verbatim>\<open>OPEN_MENUS\<close> and every \<^verbatim>\<open>deactivate\<close>
  takes exactly one away. Starting from zero, at every point of an orderly signal
  sequence (each menu deactivated at most once after being realized) the counter is
  the number of menus that are open, and it is not negative.
\<close>

theorem OPEN_MENUS_is_number_of_open_menus:
  assumes "orderly ss {}"
  shows "emit_menu_signal (Realize m) n = n + 1
       \<and> emit_menu_signal (Deactivate m) n = n - 1
       \<and> emit_menu_signals (take k ss) OPEN_MENUS_initial
           = int (card (open_menus_after (take k ss) {}))
       \<and> 0 \<le> emit_menu_signals (take k ss) OPEN_MENUS_initial"
proof -
  have "orderly (take k ss) {}"
    using assms by (rule orderly_take)
  then have "emit_menu_signals (take k ss) (int (card ({} :: obj_ref set)))
           = int (card (open_menus_after (take k ss) {}))"
    by (intro counter_tracks_open_menus) simp_all
  then show ?thesis
    by (simp add: OPEN_MENUS_initial_def add_to_open_def remove_from_open_def)
qed

theorem OPEN_MENUS_is_number_of_open_menus_witness:
  "orderly [Realize 1, Realize 2, Deactivate 1, Realize 3] {}
   \<and> emit_menu_signals (take 4 [Realize 1, Realize 2, Deactivate 1, Realize 3])
        OPEN_MENUS_initial = 2
   \<and> open_menus_after (take 4 [Realize 1, Realize 2, Deactivate 1, Realize 3]) {} = {2, 3}
   \<and> emit_menu_signals (take 3 [Realize 1, Realize 2, Deactivate 1, Realize 3])
        OPEN_MENUS_initial = int (card (open_menus_after
          (take 3 [Realize 1, Realize 2, Deactivate 1, Realize 3]) {}))"
proof -
  have h: "orderly [Realize 1, Realize 2, Deactivate 1, Realize 3] {}"
    by simp
  have eq: "open_menus_after (take 4 [Realize 1, Realize 2, Deactivate 1, Realize 3]) {}
            = {2, 3}"
    by auto
  from OPEN_MENUS_is_number_of_open_menus [OF h, of 0 0 4]
  have "emit_menu_signals (take 4 [Realize 1, Realize 2, Deactivate 1, Realize 3])
          OPEN_MENUS_initial = 2"
    by (simp only: eq) simp
  moreover from OPEN_MENUS_is_number_of_open_menus [OF h, of 0 0 3]
  have "emit_menu_signals (take 3 [Realize 1, Realize 2, Deactivate 1, Realize 3])
          OPEN_MENUS_initial = int (card (open_menus_after
            (take 3 [Realize 1, Realize 2, Deactivate 1, Realize 3]) {}))"
    by blast
  ultimately show ?thesis using h eq by blast
qed

subsection \<open>The network indicator\<close>

text \<open>
  C7. After \<^verbatim>\<open>set_network_state(state)\<close>, whatever calls came before, the indicator box
  is visible, the \<^verbatim>\<open>network_on\<close> image is visible exactly when \<^verbatim>\<open>state\<close> is true and the
  \<^verbatim>\<open>network_off\<close> image exactly when it is false; so exactly one of the two images is
  visible, and a second call with the same argument changes nothing.
\<close>

theorem set_network_state_reflects_state:
  "indicator_visible (set_network_state state (set_network_states prior ind))
   \<and> image_visible (network_on (set_network_state state (set_network_states prior ind)))
       = state
   \<and> image_visible (network_off (set_network_state state (set_network_states prior ind)))
       = (\<not> state)
   \<and> image_visible (network_on (set_network_state state (set_network_states prior ind)))
       \<noteq> image_visible (network_off (set_network_state state (set_network_states prior ind)))
   \<and> set_network_state state (set_network_state state (set_network_states prior ind))
       = set_network_state state (set_network_states prior ind)"
  by (simp add: set_network_state_def)

subsection \<open>Rows of the qube list\<close>

lemma style_context_update_contents:
  "style_context (update_contents ups ul un ut row)
     = (if ut \<or> ups then style_context (update_style ups row) else style_context row)"
  by (cases ups; cases ul; cases un; cases ut; cases "parent row";
      simp add: update_contents_def update_style_def Let_def is_selected_def)

lemma icon_img_update_contents:
  "icon_img (update_contents ups ul un ut row)
     = (if ul then Some (load_icon (vm_icon_name (vm_entry row)) Default_size)
        else icon_img row)"
  by (cases ups; cases ul; cases un; cases ut; cases "parent row";
      simp add: update_contents_def update_style_def Let_def is_selected_def)

lemma vm_entry_update_contents:
  "vm_entry (update_contents ups ul un ut row) = vm_entry row"
  by (cases ups; cases ul; cases un; cases ut; cases "parent row";
      simp add: update_contents_def update_style_def Let_def is_selected_def)

lemma widgets_update_contents:
  "dispvm_icon (update_contents ups ul un ut row) = dispvm_icon row
   \<and> main_box (update_contents ups ul un ut row) = main_box row"
  by (cases ups; cases ul; cases un; cases ut; cases "parent row";
      simp add: update_contents_def update_style_def Let_def is_selected_def)

lemma parent_update_contents:
  "parent (update_contents ups ul un ut row)
     = (case parent row of
          None \<Rightarrow> None
        | Some lb \<Rightarrow>
            (let lb1 = (if ut \<or> ups
                        then select_row None (invalidate_filter (invalidate_sort lb))
                        else lb)
             in Some (if un \<and> selected_row lb1 = Some (self_ref row)
                      then select_row (Some (self_ref row)) (select_row None lb1)
                      else lb1)))"
  by (cases ups; cases ul; cases un; cases ut; cases "parent row";
      simp add: update_contents_def update_style_def Let_def is_selected_def)


lemmas style_defs = add_class_def remove_class_def has_class_def

text \<open>
  C3. After \<^verbatim>\<open>VMRow.update_contents\<close> with \<^verbatim>\<open>update_power_state=True\<close> the row has the style
  class \<^verbatim>\<open>running_vm\<close> exactly when the entry's power state is \<^verbatim>\<open>Running\<close>; an entry
  that is \<^verbatim>\<open>Halted\<close> or \<^verbatim>\<open>Transient\<close> is shown as not running.
\<close>

theorem running_vm_class_iff_Running:
  "has_class ''running_vm'' (style_context (update_contents True ul un ut row))
     = (power_state (vm_entry row) = ''Running'')
   \<and> \<not> has_class ''running_vm'' (style_context (update_contents True ul un ut
         (row\<lparr>vm_entry := (vm_entry row)\<lparr>power_state := ''Halted''\<rparr>\<rparr>)))
   \<and> \<not> has_class ''running_vm'' (style_context (update_contents True ul un ut
         (row\<lparr>vm_entry := (vm_entry row)\<lparr>power_state := ''Transient''\<rparr>\<rparr>)))"
  by (simp add: style_context_update_contents update_style_def Let_def style_defs)

text \<open>
  C5. \<^verbatim>\<open>VMRow.update_contents\<close> touches only what the flags name. Without \<^verbatim>\<open>update_label\<close>
  the icon keeps its pixbuf. Without \<^verbatim>\<open>update_type\<close> and \<^verbatim>\<open>update_power_state\<close> the style
  classes stay as they are, and so do the parent list's sort and filter invalidations
  and its selected row. Without \<^verbatim>\<open>update_has_network\<close> the row is not selected again:
  the only \<^verbatim>\<open>select_row\<close> call there can be is the one with \<^verbatim>\<open>None\<close>. With all four flags
  false nothing changes but \<^verbatim>\<open>main_box.show_all()\<close>.
\<close>

theorem update_contents_frame:
  "icon_img (update_contents ups False un ut row) = icon_img row
   \<and> style_context (update_contents False ul un False row) = style_context row
   \<and> map_option sort_invalidated (parent (update_contents False ul un False row))
        = map_option sort_invalidated (parent row)
   \<and> map_option filter_invalidated (parent (update_contents False ul un False row))
        = map_option filter_invalidated (parent row)
   \<and> map_option selected_row (parent (update_contents False ul un False row))
        = map_option selected_row (parent row)
   \<and> map_option select_row_calls (parent (update_contents ups ul False ut row))
        = map_option (\<lambda>lb. select_row_calls lb @ (if ut \<or> ups then [None] else []))
            (parent row)
   \<and> update_contents False False False False row = row\<lparr>main_box_shown := True\<rparr>"
proof -
  have "update_contents False False False False row = row\<lparr>main_box_shown := True\<rparr>"
    by (simp add: update_contents_def)
  moreover have "map_option select_row_calls (parent (update_contents ups ul False ut row))
        = map_option (\<lambda>lb. select_row_calls lb @ (if ut \<or> ups then [None] else []))
            (parent row)"
    by (simp add: parent_update_contents select_row_def invalidate_sort_def
          invalidate_filter_def split: option.splits)
  moreover have "map_option selected_row (parent (update_contents False ul un False row))
        = map_option selected_row (parent row)"
    by (simp add: parent_update_contents select_row_def split: option.splits)
  moreover have "map_option sort_invalidated (parent (update_contents False ul un False row))
        = map_option sort_invalidated (parent row)"
    by (simp add: parent_update_contents select_row_def split: option.splits)
  moreover have "map_option filter_invalidated (parent (update_contents False ul un False row))
        = map_option filter_invalidated (parent row)"
    by (simp add: parent_update_contents select_row_def split: option.splits)
  ultimately show ?thesis
    by (simp add: icon_img_update_contents style_context_update_contents)
qed

lemma VMRow_init_unfold:
  "VMRow_init cls ref entry =
     update_contents (cls = VMRow_class) True (cls = VMRow_class) True
       \<lparr>self_ref = ref, mouse = False, style_context = {''vm_entry''},
        main_box = (if truthy (parent_vm entry) then [Dispvm_icon] else []) @ [Icon_img, Label],
        main_box_shown = False, parent = None, row_class = cls, vm_entry = entry,
        row_vm_name = vm_name entry, icon_img = None,
        dispvm_icon = (if truthy (parent_vm entry)
                  then Some \<lparr>dispvm_pixbuf = load_icon ''qappmenu-dispvm-child'' (Pixel_size 15),
                             dispvm_style = {''dispvm_icon''},
                             dispvm_valign_start = True\<rparr>
                  else None),
        label_text = vm_name entry\<rparr>"
  by (cases cls) (simp_all add: VMRow_init_def call_update_contents_def
        SearchVMRow_update_contents_def HoverListBox_init_def add_class_def Let_def)

text \<open>
  C6. \<^verbatim>\<open>VMRow.__init__\<close> only tests \<^verbatim>\<open>parent_vm\<close> for truth, so it returns a row for every
  entry. The icon of a disposable qube's child is created and packed exactly when
  \<^verbatim>\<open>parent_vm\<close> is set; with \<^verbatim>\<open>parent_vm\<close> absent (\<^verbatim>\<open>None\<close> or empty) there is no such icon
  and the row is styled as having no parent.
\<close>

theorem VMRow_init_dispvm_icon_iff_parent:
  "(dispvm_icon (VMRow_init cls ref entry) \<noteq> None) = truthy (parent_vm entry)
   \<and> main_box (VMRow_init cls ref entry)
       = (if truthy (parent_vm entry) then [Dispvm_icon, Icon_img, Label]
          else [Icon_img, Label])
   \<and> dispvm_icon (VMRow_init cls ref (entry\<lparr>parent_vm := None\<rparr>)) = None
   \<and> dispvm_icon (VMRow_init cls ref (entry\<lparr>parent_vm := Some []\<rparr>)) = None
   \<and> \<not> has_class ''dispvm_entry''
         (style_context (VMRow_init cls ref (entry\<lparr>parent_vm := None\<rparr>)))
   \<and> vm_entry (VMRow_init cls ref entry) = entry"
  by (simp add: VMRow_init_unfold widgets_update_contents vm_entry_update_contents
        style_context_update_contents update_style_def Let_def style_defs truthy_def)

lemma vm_entry_update_style:
  "vm_entry (update_style ups row) = vm_entry row"
  by (simp add: update_style_def Let_def)

lemma update_style_keeps_type_classes:
  assumes "has_class ''dvm_template_entry'' (style_context row) = is_dispvm_template (vm_entry row)"
    and "has_class ''dispvm_entry'' (style_context row)
           = (\<not> is_dispvm_template (vm_entry row) \<and> truthy (parent_vm (vm_entry row)))"
    and "is_dispvm_template entry = is_dispvm_template (vm_entry row)"
  shows "has_class ''dvm_template_entry''
           (style_context (update_style ups (row\<lparr>vm_entry := entry\<rparr>)))
         = is_dispvm_template entry
       \<and> has_class ''dispvm_entry''
           (style_context (update_style ups (row\<lparr>vm_entry := entry\<rparr>)))
         = (\<not> is_dispvm_template entry \<and> truthy (parent_vm entry))"
  using assms by (simp add: update_style_def Let_def style_defs)

lemma VMRow_init_type_classes:
  "has_class ''dvm_template_entry'' (style_context (VMRow_init cls ref entry))
     = is_dispvm_template entry
   \<and> has_class ''dispvm_entry'' (style_context (VMRow_init cls ref entry))
     = (\<not> is_dispvm_template entry \<and> truthy (parent_vm entry))"
  by (simp add: VMRow_init_unfold style_context_update_contents update_style_def Let_def
        style_defs)

lemma update_style_calls_type_classes:
  assumes "has_class ''dvm_template_entry'' (style_context row) = is_dispvm_template (vm_entry row)"
    and "has_class ''dispvm_entry'' (style_context row)
           = (\<not> is_dispvm_template (vm_entry row) \<and> truthy (parent_vm (vm_entry row)))"
    and "\<forall>c \<in> set calls. is_dispvm_template (fst c) = is_dispvm_template (vm_entry row)"
  shows "has_class ''dvm_template_entry'' (style_context (update_style_calls calls row))
           = is_dispvm_template (vm_entry (update_style_calls calls row))
       \<and> has_class ''dispvm_entry'' (style_context (update_style_calls calls row))
           = (\<not> is_dispvm_template (vm_entry (update_style_calls calls row))
              \<and> truthy (parent_vm (vm_entry (update_style_calls calls row))))
       \<and> is_dispvm_template (vm_entry (update_style_calls calls row))
           = is_dispvm_template (vm_entry row)"
  using assms
proof (induction calls row rule: update_style_calls.induct)
  case (1 row)
  then show ?case by simp
next
  case (2 entry ups cs row)
  let ?row' = "update_style ups (row\<lparr>vm_entry := entry\<rparr>)"
  from "2.prems" have same: "is_dispvm_template entry = is_dispvm_template (vm_entry row)"
    by simp
  have step: "has_class ''dvm_template_entry'' (style_context ?row') = is_dispvm_template entry
       \<and> has_class ''dispvm_entry'' (style_context ?row')
         = (\<not> is_dispvm_template entry \<and> truthy (parent_vm entry))"
    using "2.prems"(1,2) same by (rule update_style_keeps_type_classes)
  have entry': "vm_entry ?row' = entry"
    by (simp add: vm_entry_update_style)
  have rest: "\<forall>c \<in> set cs. is_dispvm_template (fst c) = is_dispvm_template (vm_entry ?row')"
    using "2.prems"(3) same entry' by simp
  from "2.IH" [OF _ _ rest] step entry' same show ?case
    by simp
qed

text \<open>
  C4. For an entry whose \<^verbatim>\<open>is_dispvm_template\<close> flag never changes, after the constructor
  and any further calls of \<^verbatim>\<open>update_style\<close> the row has \<^verbatim>\<open>dvm_template_entry\<close> exactly when
  the entry is a template for disposables, \<^verbatim>\<open>dispvm_entry\<close> exactly when it is not and has
  a parent, and never both; a plain entry has neither, and neither has the generic
  \<^verbatim>\<open>AnyVMRow\<close>.
\<close>

theorem type_style_classes_match_entry:
  assumes "\<forall>c \<in> set calls. is_dispvm_template (fst c) = is_dispvm_template entry"
  shows "has_class ''dvm_template_entry''
           (style_context (update_style_calls calls (VMRow_init cls ref entry)))
           = is_dispvm_template (vm_entry (update_style_calls calls (VMRow_init cls ref entry)))
       \<and> has_class ''dispvm_entry''
           (style_context (update_style_calls calls (VMRow_init cls ref entry)))
           = (\<not> is_dispvm_template
                   (vm_entry (update_style_calls calls (VMRow_init cls ref entry)))
              \<and> truthy (parent_vm
                   (vm_entry (update_style_calls calls (VMRow_init cls ref entry)))))
       \<and> \<not> (has_class ''dvm_template_entry''
                (style_context (update_style_calls calls (VMRow_init cls ref entry)))
              \<and> has_class ''dispvm_entry''
                (style_context (update_style_calls calls (VMRow_init cls ref entry))))
       \<and> is_dispvm_template (vm_entry (update_style_calls calls (VMRow_init cls ref entry)))
           = is_dispvm_template entry
       \<and> \<not> has_class ''dvm_template_entry'' (style_context (AnyVMRow_init ref'))
       \<and> \<not> has_class ''dispvm_entry'' (style_context (AnyVMRow_init ref'))"
proof -
  have e: "vm_entry (VMRow_init cls ref entry) = entry"
    by (simp add: VMRow_init_unfold vm_entry_update_contents)
  have "has_class ''dvm_template_entry'' (style_context (VMRow_init cls ref entry))
          = is_dispvm_template (vm_entry (VMRow_init cls ref entry))"
    and "has_class ''dispvm_entry'' (style_context (VMRow_init cls ref entry))
          = (\<not> is_dispvm_template (vm_entry (VMRow_init cls ref entry))
             \<and> truthy (parent_vm (vm_entry (VMRow_init cls ref entry))))"
    and "\<forall>c \<in> set calls. is_dispvm_template (fst c)
          = is_dispvm_template (vm_entry (VMRow_init cls ref entry))"
    using assms by (simp_all add: e VMRow_init_type_classes)
  from update_style_calls_type_classes [OF this] e
  have main: "has_class ''dvm_template_entry''
           (style_context (update_style_calls calls (VMRow_init cls ref entry)))
           = is_dispvm_template (vm_entry (update_style_calls calls (VMRow_init cls ref entry)))
       \<and> has_class ''dispvm_entry''
           (style_context (update_style_calls calls (VMRow_init cls ref entry)))
           = (\<not> is_dispvm_template
                   (vm_entry (update_style_calls calls (VMRow_init cls ref entry)))
              \<and> truthy (parent_vm
                   (vm_entry (update_style_calls calls (VMRow_init cls ref entry)))))
       \<and> is_dispvm_template (vm_entry (update_style_calls calls (VMRow_init cls ref entry)))
           = is_dispvm_template entry"
    by simp
  have any: "\<not> has_class ''dvm_template_entry'' (style_context (AnyVMRow_init ref'))
       \<and> \<not> has_class ''dispvm_entry'' (style_context (AnyVMRow_init ref'))"
    by (simp add: AnyVMRow_init_def HoverListBox_init_def style_defs Let_def)
  from main any show ?thesis by blast
qed

theorem type_style_classes_match_entry_witness:
  "is_dispvm_template (sample_entry\<lparr>parent_vm := None\<rparr>) = is_dispvm_template sample_entry
   \<and> has_class ''dispvm_entry''
       (style_context (update_style_calls
          [(sample_entry\<lparr>parent_vm := None\<rparr>, True), (sample_entry, False)]
          (VMRow_init VMRow_class 7 sample_entry)))
   \<and> \<not> has_class ''dvm_template_entry''
       (style_context (update_style_calls
          [(sample_entry\<lparr>parent_vm := None\<rparr>, True), (sample_entry, False)]
          (VMRow_init VMRow_class 7 sample_entry)))"
  using type_style_classes_match_entry
    [of "[(sample_entry\<lparr>parent_vm := None\<rparr>, True), (sample_entry, False)]"
        sample_entry VMRow_class 7]
  by (simp add: vm_entry_update_style) (simp add: sample_entry_def truthy_def)

subsection \<open>The application object\<close>

lemma same_setup_refl: "same_setup app app"
  by (simp add: same_setup_def)

lemma same_setup_trans:
  "same_setup a b \<Longrightarrow> same_setup b c \<Longrightarrow> same_setup a c"
  by (simp add: same_setup_def)

lemma same_setup_log_call:
  "c \<noteq> Perform_setup \<Longrightarrow> same_setup app (log_call c app)"
  by (simp add: same_setup_def log_call_def setup_calls_def)

lemma page_arguments_initialize_handler:
  "map page_arguments (initialize_handler name hs) = map page_arguments hs"
  by (induction name hs rule: initialize_handler.induct)
     (simp_all add: page_arguments_def initialize_page_def)

lemma page_arguments_initialize_pages:
  "map page_arguments (initialize_pages hs) = map page_arguments hs"
  by (induction hs rule: initialize_pages.induct)
     (simp_all add: page_arguments_def initialize_page_def)

lemma same_setup_handle_page_switch:
  "same_setup app (handle_page_switch name app)"
  by (simp add: same_setup_def handle_page_switch_def log_call_def setup_calls_def
        page_arguments_initialize_handler split: option.splits)

lemma same_setup_set_current_page:
  "same_setup app (set_current_page n app)"
proof (cases "main_notebook app")
  case None
  then show ?thesis by (simp add: set_current_page_def same_setup_refl)
next
  case (Some nb)
  let ?app1 = "log_call (Set_current_page n) app"
  have 1: "same_setup app ?app1"
    by (simp add: same_setup_log_call)
  have 2: "same_setup app (?app1\<lparr>main_notebook := Some nb'\<rparr>)" for nb'
    using Some by (simp add: same_setup_def log_call_def setup_calls_def)
  have 3: "same_setup app (handle_page_switch name (?app1\<lparr>main_notebook := Some nb'\<rparr>))"
    for name nb'
    using 2 same_setup_handle_page_switch by (rule same_setup_trans)
  show ?thesis
    using Some 1 3 by (simp add: set_current_page_def Let_def)
qed

lemma same_setup_window:
  "same_setup app (window_show_all app)"
  "same_setup app (window_hide app)"
  "same_setup app (window_present app)"
  by (simp_all add: same_setup_def window_show_all_def window_hide_def window_present_def
        log_call_def setup_calls_def)


lemma perform_setup_fields:
  "primary (perform_setup res app) = primary app"
  "keep_visible (perform_setup res app) = keep_visible app"
  "initial_page (perform_setup res app) = initial_page app"
  "start_in_background (perform_setup res app) = start_in_background app"
  "dispatcher (perform_setup res app) = dispatcher app"
  "trace (perform_setup res app) = trace app @ [Perform_setup]"
  "next_ref (perform_setup res app) = next_ref app + 7"
  "main_window (perform_setup res app) = Some \<lparr>window_visible = glade_window_visible res\<rparr>"
  "main_notebook (perform_setup res app)
     = Some \<lparr>page_names = glade_page_names res, current_page = glade_current_page res\<rparr>"
  "desktop_file_manager (perform_setup res app) = Some (next_ref app + 1)"
  "vm_manager (perform_setup res app) = Some (next_ref app + 2)"
  "constructed (perform_setup res app)
     = constructed app @
       [(next_ref app, Builder_class), (next_ref app + 1, DesktopFileManager_class),
        (next_ref app + 2, VMManager_class), (next_ref app + 3, SearchPage_class),
        (next_ref app + 4, AppPage_class), (next_ref app + 5, FavoritesPage_class),
        (next_ref app + 6, SettingsPage_class)]"
  by (simp_all add: perform_setup_def construct_def log_call_def load_style_def Let_def)

lemma perform_setup_handlers:
  "map page_arguments (handlers (perform_setup res app))
     = [(''search_page'', SearchPage_class, None, Some (next_ref app + 2),
           next_ref app, next_ref app + 1, None),
        (''app_page'', AppPage_class, None, Some (next_ref app + 2),
           next_ref app, next_ref app + 1, None),
        (''favorites_page'', FavoritesPage_class, Some (qapp app), Some (next_ref app + 2),
           next_ref app, next_ref app + 1, Some (dispatcher app)),
        (''settings_page'', SettingsPage_class, Some (qapp app), None,
           next_ref app, next_ref app + 1, Some (dispatcher app))]"
  by (simp add: perform_setup_def construct_def log_call_def load_style_def Let_def
        page_arguments_def)


lemma same_setup_initialize_state:
  "same_setup app (initialize_state app)"
proof -
  let ?app1 = "case main_notebook app of None \<Rightarrow> app
               | Some nb \<Rightarrow> set_current_page (initial_page app) app"
  have 1: "same_setup app ?app1"
    by (simp add: same_setup_refl same_setup_set_current_page split: option.splits)
  have "count_list (map (\<lambda>h. Initialize_page (fst h)) hs) Perform_setup = 0" for hs :: "(string \<times> MenuPage) list"
    by (induction hs) simp_all
  then have 2: "same_setup ?app1
     (?app1\<lparr>handlers := initialize_pages (handlers ?app1),
             trace := trace ?app1 @ map (\<lambda>h. Initialize_page (fst h)) (handlers ?app1)\<rparr>)"
    by (simp add: same_setup_def setup_calls_def page_arguments_initialize_pages)
  from 1 2 have "same_setup app
     (?app1\<lparr>handlers := initialize_pages (handlers ?app1),
             trace := trace ?app1 @ map (\<lambda>h. Initialize_page (fst h)) (handlers ?app1)\<rparr>)"
    by (rule same_setup_trans)
  then show ?thesis
    by (simp add: initialize_state_def Let_def)
qed

lemma do_activate_again:
  assumes "primary app"
  shows "\<exists>app'. do_activate res app = Inr app' \<and> same_setup app app'"
proof -
  let ?app1 = "case main_notebook app of None \<Rightarrow> app
               | Some nb \<Rightarrow> set_current_page (initial_page app) app"
  have 1: "same_setup app ?app1"
    by (simp add: same_setup_refl same_setup_set_current_page split: option.splits)
  have 2: "same_setup app (window_hide ?app1)" "same_setup app (window_present ?app1)"
    using 1 same_setup_window(2,3) by (blast intro: same_setup_trans)+
  show ?thesis
    using assms 1 2 by (simp add: do_activate_def Let_def split: option.splits)
qed

lemma do_activate_first:
  assumes "\<not> primary app"
  shows "\<exists>app'. do_activate res app = Inr app' \<and> primary app'
           \<and> setup_calls app' = Suc (setup_calls app)
           \<and> constructed app' = constructed (perform_setup res app)
           \<and> desktop_file_manager app' = desktop_file_manager (perform_setup res app)
           \<and> vm_manager app' = vm_manager (perform_setup res app)
           \<and> map page_arguments (handlers app')
               = map page_arguments (handlers (perform_setup res app))
           \<and> main_window app' \<noteq> None
           \<and> tasks app' = [Listen_for_events (dispatcher app)]"
proof -
  let ?app1 = "(perform_setup res app)\<lparr>primary := True\<rparr>"
  let ?app2 = "if \<not> start_in_background ?app1 then window_show_all ?app1 else ?app1"
  let ?app3 = "initialize_state ?app2"
  let ?l = "Listen_for_events (dispatcher ?app3)"
  let ?app4 = "log_call (Ensure_future ?l) (?app3\<lparr>tasks := [?l]\<rparr>)"
  let ?app5 = "log_call Run_until_complete ?app4"
  have w: "main_window ?app1 = Some \<lparr>window_visible = glade_window_visible res\<rparr>"
    by (simp add: perform_setup_fields)
  have res: "do_activate res app = Inr ?app5"
    using assms w by (simp add: do_activate_def Let_def)
  have 12: "same_setup ?app1 ?app2"
    by (simp add: same_setup_refl same_setup_window)
  have 23: "same_setup ?app2 ?app3"
    by (rule same_setup_initialize_state)
  have 34: "same_setup ?app3 ?app4"
    by (simp add: same_setup_def log_call_def setup_calls_def)
  have 45: "same_setup ?app4 ?app5"
    by (simp add: same_setup_log_call)
  have 15: "same_setup ?app1 ?app5"
    using 12 23 34 45 by (blast intro: same_setup_trans)
  have "same_setup ?app1 ?app3"
    using 12 23 by (rule same_setup_trans)
  then have d: "dispatcher ?app3 = dispatcher app"
    by (simp add: same_setup_def perform_setup_fields)
  have "primary ?app5 \<and> setup_calls ?app5 = Suc (setup_calls app)
           \<and> constructed ?app5 = constructed (perform_setup res app)
           \<and> desktop_file_manager ?app5 = desktop_file_manager (perform_setup res app)
           \<and> vm_manager ?app5 = vm_manager (perform_setup res app)
           \<and> map page_arguments (handlers ?app5)
               = map page_arguments (handlers (perform_setup res app))
           \<and> main_window ?app5 \<noteq> None"
    using 15 w by (simp add: same_setup_def setup_calls_def perform_setup_fields)
  moreover have "tasks ?app5 = [Listen_for_events (dispatcher app)]"
    using d by (simp add: log_call_def)
  ultimately show ?thesis using res by blast
qed


lemma hide_menu_after_setup:
  assumes "map_of (handlers app) ''search_page'' = Some page"
    and "main_window app = Some w"
  shows "\<exists>app'. hide_menu app = Inr app'
           \<and> trace app' = trace app @ Initialize_page ''search_page''
                              # (if keep_visible app then [] else [Hide])
           \<and> main_window app'
               = Some (w\<lparr>window_visible := window_visible w \<and> keep_visible app\<rparr>)
           \<and> handlers app' = initialize_handler ''search_page'' (handlers app)"
  using assms by (simp add: hide_menu_def Let_def log_call_def window_hide_def)

lemma map_of_initialize_handler:
  "map_of (initialize_handler name hs) name = map_option initialize_page (map_of hs name)"
  by (induction name hs rule: initialize_handler.induct) simp_all

lemma same_setup_hide_menu:
  "same_setup app (keep_on_error app (hide_menu app))"
proof (cases "map_of (handlers app) ''search_page''")
  case None
  then show ?thesis by (simp add: hide_menu_def keep_on_error_def same_setup_refl)
next
  case (Some page)
  let ?app1 = "log_call (Initialize_page ''search_page'')
                 (app\<lparr>handlers := initialize_handler ''search_page'' (handlers app)\<rparr>)"
  have 1: "same_setup app ?app1"
    by (simp add: same_setup_def log_call_def setup_calls_def page_arguments_initialize_handler)
  have 2: "same_setup app (window_hide ?app1)"
    using 1 same_setup_window(2) by (rule same_setup_trans)
  show ?thesis
    using Some 1 2 by (simp add: hide_menu_def keep_on_error_def Let_def)
qed

lemma same_setup_key_pressed:
  "same_setup app (key_pressed keyval app)"
proof -
  have 1: "same_setup app (log_call Grab_search_focus app)"
    by (simp add: same_setup_log_call)
  have 2: "same_setup app (set_current_page 0 (log_call Grab_search_focus app))"
    using 1 same_setup_set_current_page by (rule same_setup_trans)
  show ?thesis
    using 1 2 by (simp add: key_pressed_def Let_def same_setup_refl split: option.splits)
qed

lemma map_of_None_page_arguments:
  "(map_of hs k = None) = (k \<notin> set (map fst (map page_arguments hs)))"
  by (simp add: map_of_eq_None_iff page_arguments_def comp_def)

lemma same_setup_keeps_ready:
  assumes "same_setup app app'"
  shows "(main_window app' = None) = (main_window app = None)"
    and "(map_of (handlers app') k = None) = (map_of (handlers app) k = None)"
  using assms by (simp_all add: same_setup_def map_of_None_page_arguments)

lemma perform_setup_search_page:
  "map page_arguments (handlers app) = map page_arguments (handlers (perform_setup res app0))
   \<Longrightarrow> map_of (handlers app) ''search_page'' \<noteq> None"
  by (simp add: map_of_None_page_arguments perform_setup_handlers)

text \<open>
  One event, seen from the application as the handler finds it (for a start from the
  command line, with the options already stored): either it is the first activation,
  or the setup is left as it is.
\<close>

lemma dispatch_step:
  obtains app0 where
    "primary app0 = primary (app_menu prog)"
    "setup_calls app0 = setup_calls (app_menu prog)"
    "constructed app0 = constructed (app_menu prog)"
    "main_window app0 = main_window (app_menu prog)"
    "handlers app0 = handlers (app_menu prog)"
    "if \<not> primary app0 \<and> 0 < activations [ev]
     then do_activate res app0 = Inr (app_menu (dispatch res ev prog))
     else same_setup app0 (app_menu (dispatch res ev prog))"
proof (cases ev)
  case (Command_line options)
  define app1 where "app1 = (if option_keep_visible options
                             then (app_menu prog)\<lparr>keep_visible := True\<rparr> else app_menu prog)"
  define app2 where "app2 = (case option_page options of None \<Rightarrow> app1
                             | Some n \<Rightarrow> app1\<lparr>initial_page := n\<rparr>)"
  define app3 where "app3 = (if option_background options
                             then app2\<lparr>start_in_background := True\<rparr> else app2)"
  have eq: "do_command_line res options (app_menu prog) = do_activate res app3"
    unfolding do_command_line_def Let_def app3_def app2_def app1_def ..
  have same: "primary app3 = primary (app_menu prog)"
    "setup_calls app3 = setup_calls (app_menu prog)"
    "constructed app3 = constructed (app_menu prog)"
    "main_window app3 = main_window (app_menu prog)"
    "handlers app3 = handlers (app_menu prog)"
    unfolding app3_def app2_def app1_def
    by (simp_all add: setup_calls_def split: option.splits)
  have "if \<not> primary app3 \<and> 0 < activations [ev]
     then do_activate res app3 = Inr (app_menu (dispatch res ev prog))
     else same_setup app3 (app_menu (dispatch res ev prog))"
  proof (cases "primary app3")
    case True
    from do_activate_again [OF this, of res] obtain app' where
      "do_activate res app3 = Inr app'" "same_setup app3 app'" by blast
    with True Command_line eq show ?thesis
      by (simp add: keep_on_error_def)
  next
    case False
    from do_activate_first [OF this, of res] obtain app' where
      "do_activate res app3 = Inr app'" by blast
    with False Command_line eq show ?thesis
      by (simp add: keep_on_error_def)
  qed
  with same show ?thesis by (rule that)
next
  case Activate
  have "if \<not> primary (app_menu prog) \<and> 0 < activations [ev]
     then do_activate res (app_menu prog) = Inr (app_menu (dispatch res ev prog))
     else same_setup (app_menu prog) (app_menu (dispatch res ev prog))"
  proof (cases "primary (app_menu prog)")
    case True
    from do_activate_again [OF this, of res] obtain app' where
      "do_activate res (app_menu prog) = Inr app'" "same_setup (app_menu prog) app'" by blast
    with True Activate show ?thesis
      by (simp add: keep_on_error_def)
  next
    case False
    from do_activate_first [OF this, of res] obtain app' where
      "do_activate res (app_menu prog) = Inr app'" by blast
    with False Activate show ?thesis
      by (simp add: keep_on_error_def)
  qed
  then show ?thesis by (intro that [of "app_menu prog"]) simp_all
next
  case Focus_out
  have "same_setup (app_menu prog)
          (keep_on_error (app_menu prog) (focus_out (OPEN_MENUS prog) (app_menu prog)))"
    by (simp add: focus_out_def same_setup_hide_menu) (simp add: keep_on_error_def same_setup_refl)
  with Focus_out show ?thesis by (intro that [of "app_menu prog"]) simp_all
next
  case (Key_press keyval)
  have "same_setup (app_menu prog)
          (keep_on_error (app_menu prog) (key_press keyval (app_menu prog)))"
    by (simp add: key_press_def same_setup_hide_menu) (simp add: keep_on_error_def same_setup_refl)
  then have "same_setup (app_menu prog)
          (key_pressed keyval (keep_on_error (app_menu prog) (key_press keyval (app_menu prog))))"
    using same_setup_key_pressed by (rule same_setup_trans)
  with Key_press show ?thesis by (intro that [of "app_menu prog"]) simp_all
next
  case (Menu_signal s)
  then show ?thesis by (intro that [of "app_menu prog"]) (simp_all add: same_setup_refl)
qed

lemma dispatch_effect:
  "primary (app_menu (dispatch res ev prog))
     = (primary (app_menu prog) \<or> 0 < activations [ev])
   \<and> setup_calls (app_menu (dispatch res ev prog))
     = (if \<not> primary (app_menu prog) \<and> 0 < activations [ev]
        then Suc (setup_calls (app_menu prog)) else setup_calls (app_menu prog))
   \<and> map snd (constructed (app_menu (dispatch res ev prog)))
     = (if \<not> primary (app_menu prog) \<and> 0 < activations [ev]
        then map snd (constructed (app_menu prog))
             @ [Builder_class, DesktopFileManager_class, VMManager_class, SearchPage_class,
                AppPage_class, FavoritesPage_class, SettingsPage_class]
        else map snd (constructed (app_menu prog)))"
proof -
  obtain app0 where app0:
    "primary app0 = primary (app_menu prog)"
    "setup_calls app0 = setup_calls (app_menu prog)"
    "constructed app0 = constructed (app_menu prog)"
    "if \<not> primary app0 \<and> 0 < activations [ev]
     then do_activate res app0 = Inr (app_menu (dispatch res ev prog))
     else same_setup app0 (app_menu (dispatch res ev prog))"
    by (rule dispatch_step)
  show ?thesis
  proof (cases "\<not> primary app0 \<and> 0 < activations [ev]")
    case True
    with do_activate_first [of app0 res] app0 show ?thesis
      by (auto simp: perform_setup_fields)
  next
    case False
    with app0 have "same_setup app0 (app_menu (dispatch res ev prog))" by simp
    then show ?thesis
      using False app0(1,2,3) by (cases ev) (auto simp: same_setup_def)
  qed
qed

lemma activations_Cons:
  "activations (ev # evs) = activations [ev] + activations evs"
  by (cases ev) simp_all

lemma run_effect:
  "primary (app_menu (run res evs prog))
     = (primary (app_menu prog) \<or> 0 < activations evs)
   \<and> setup_calls (app_menu (run res evs prog))
     = (if \<not> primary (app_menu prog) \<and> 0 < activations evs
        then Suc (setup_calls (app_menu prog)) else setup_calls (app_menu prog))
   \<and> map snd (constructed (app_menu (run res evs prog)))
     = (if \<not> primary (app_menu prog) \<and> 0 < activations evs
        then map snd (constructed (app_menu prog))
             @ [Builder_class, DesktopFileManager_class, VMManager_class, SearchPage_class,
                AppPage_class, FavoritesPage_class, SettingsPage_class]
        else map snd (constructed (app_menu prog)))"
proof (induction evs arbitrary: prog)
  case Nil
  show ?case by simp
next
  case (Cons ev evs)
  have split: "(0 < activations (ev # evs)) = (0 < activations [ev] \<or> 0 < activations evs)"
    using activations_Cons [of ev evs] by simp
  show ?case
    using Cons.IH [of "dispatch res ev prog"] dispatch_effect [of res ev prog]
    unfolding run.simps split
    by (cases "primary (app_menu prog)"; cases "0 < activations [ev]";
        cases "0 < activations evs") simp_all
qed

lemma main_fields:
  "primary (app_menu (main q d)) = False"
  "setup_calls (app_menu (main q d)) = 0"
  "constructed (app_menu (main q d)) = []"
  by (simp_all add: main_def AppMenu_init_def setup_calls_def)

lemma dispatch_keeps_ready:
  assumes "primary (app_menu prog) \<Longrightarrow>
             main_window (app_menu prog) \<noteq> None
             \<and> map_of (handlers (app_menu prog)) ''search_page'' \<noteq> None"
    and "primary (app_menu (dispatch res ev prog))"
  shows "main_window (app_menu (dispatch res ev prog)) \<noteq> None
         \<and> map_of (handlers (app_menu (dispatch res ev prog))) ''search_page'' \<noteq> None"
proof -
  obtain app0 where app0:
    "primary app0 = primary (app_menu prog)"
    "main_window app0 = main_window (app_menu prog)"
    "handlers app0 = handlers (app_menu prog)"
    "if \<not> primary app0 \<and> 0 < activations [ev]
     then do_activate res app0 = Inr (app_menu (dispatch res ev prog))
     else same_setup app0 (app_menu (dispatch res ev prog))"
    by (rule dispatch_step)
  show ?thesis
  proof (cases "\<not> primary app0 \<and> 0 < activations [ev]")
    case True
    with do_activate_first [of app0 res] app0(4) show ?thesis
      by (auto dest: perform_setup_search_page)
  next
    case False
    with app0 have same: "same_setup app0 (app_menu (dispatch res ev prog))" by simp
    with assms(2) app0(1) have "primary (app_menu prog)"
      by (simp add: same_setup_def)
    with assms(1) app0(2,3) same_setup_keeps_ready [OF same] show ?thesis
      by simp
  qed
qed

text \<open>
  Once the application is primary it has its main window and its search page, so the
  two handlers that call \<^verbatim>\<open>hide_menu\<close> find both.
\<close>

lemma run_keeps_ready:
  assumes "primary (app_menu prog) \<Longrightarrow>
             main_window (app_menu prog) \<noteq> None
             \<and> map_of (handlers (app_menu prog)) ''search_page'' \<noteq> None"
    and "primary (app_menu (run res evs prog))"
  shows "main_window (app_menu (run res evs prog)) \<noteq> None
         \<and> map_of (handlers (app_menu (run res evs prog))) ''search_page'' \<noteq> None"
  using assms
proof (induction evs arbitrary: prog)
  case Nil
  then show ?case by simp
next
  case (Cons ev evs)
  show ?case
    unfolding run.simps
  proof (rule Cons.IH)
    assume "primary (app_menu (dispatch res ev prog))"
    with Cons.prems(1) show "main_window (app_menu (dispatch res ev prog)) \<noteq> None
         \<and> map_of (handlers (app_menu (dispatch res ev prog))) ''search_page'' \<noteq> None"
      by (rule dispatch_keeps_ready)
  next
    from Cons.prems(2) show "primary (app_menu (run res evs (dispatch res ev prog)))"
      by simp
  qed
qed

lemma ready_after_activation:
  assumes "0 < activations evs"
  shows "main_window (app_menu (run res evs (main q d))) \<noteq> None
         \<and> map_of (handlers (app_menu (run res evs (main q d)))) ''search_page'' \<noteq> None"
proof (rule run_keeps_ready)
  assume "primary (app_menu (main q d))"
  then show "main_window (app_menu (main q d)) \<noteq> None
         \<and> map_of (handlers (app_menu (main q d))) ''search_page'' \<noteq> None"
    by (simp add: main_fields)
next
  from assms run_effect [of res evs "main q d"]
  show "primary (app_menu (run res evs (main q d)))" by simp
qed

lemma trace_set_current_page:
  "\<exists>calls. trace (set_current_page n app) = trace app @ calls
     \<and> set calls \<subseteq> insert (Set_current_page n) (range Initialize_page)"
  by (auto simp: set_current_page_def Let_def log_call_def handle_page_switch_def
        split: option.splits)

lemma window_set_current_page:
  "main_window (set_current_page n app) = main_window app
   \<and> keep_visible (set_current_page n app) = keep_visible app"
  by (simp add: set_current_page_def Let_def log_call_def handle_page_switch_def
        split: option.splits)

lemma do_activate_again_calls:
  assumes "primary app"
  shows "\<exists>app' calls. do_activate res app = Inr app'
           \<and> trace app' = trace app @ calls
           \<and> set calls \<subseteq> {Set_current_page (initial_page app), Hide, Present}
                             \<union> range Initialize_page
           \<and> main_window app'
               = map_option (\<lambda>w. w\<lparr>window_visible :=
                   (if window_visible w \<and> \<not> keep_visible app then False else True)\<rparr>)
                   (main_window app)"
proof -
  let ?app1 = "case main_notebook app of None \<Rightarrow> app
               | Some nb \<Rightarrow> set_current_page (initial_page app) app"
  obtain calls where calls: "trace ?app1 = trace app @ calls"
      "set calls \<subseteq> insert (Set_current_page (initial_page app)) (range Initialize_page)"
    using trace_set_current_page [of "initial_page app" app]
    by (cases "main_notebook app") auto
  have w: "main_window ?app1 = main_window app" "keep_visible ?app1 = keep_visible app"
    by (simp_all add: window_set_current_page split: option.splits)
  show ?thesis
  proof (cases "main_window app")
    case None
    with assms w calls have "do_activate res app = Inr ?app1 \<and> trace ?app1 = trace app @ calls
        \<and> set calls \<subseteq> {Set_current_page (initial_page app), Hide, Present}
                             \<union> range Initialize_page
        \<and> main_window ?app1 = None"
      by (auto simp: do_activate_def Let_def)
    with None show ?thesis by auto
  next
    case (Some win)
    show ?thesis
    proof (cases "window_visible win \<and> \<not> keep_visible app")
      case True
      with assms w calls Some have "do_activate res app = Inr (window_hide ?app1)
        \<and> trace (window_hide ?app1) = trace app @ (calls @ [Hide])
        \<and> set (calls @ [Hide]) \<subseteq> {Set_current_page (initial_page app), Hide, Present}
                             \<union> range Initialize_page
        \<and> main_window (window_hide ?app1) = Some (win\<lparr>window_visible := False\<rparr>)"
        by (auto simp: do_activate_def Let_def window_hide_def log_call_def)
      with Some True show ?thesis by (intro exI [of _ "window_hide ?app1"] exI [of _ "calls @ [Hide]"]) simp
    next
      case False
      with assms w calls Some have "do_activate res app = Inr (window_present ?app1)
        \<and> trace (window_present ?app1) = trace app @ (calls @ [Present])
        \<and> set (calls @ [Present]) \<subseteq> {Set_current_page (initial_page app), Hide, Present}
                             \<union> range Initialize_page
        \<and> main_window (window_present ?app1) = Some (win\<lparr>window_visible := True\<rparr>)"
        by (auto simp: do_activate_def Let_def window_present_def log_call_def)
      with Some False show ?thesis
        by (intro exI [of _ "window_present ?app1"] exI [of _ "calls @ [Present]"]) simp
    qed
  qed
qed


lemma notebook_handle_page_switch:
  "main_notebook (handle_page_switch name app) = main_notebook app"
  by (simp add: handle_page_switch_def log_call_def split: option.splits)




lemma tasks_set_current_page:
  "tasks (set_current_page n app) = tasks app"
  by (simp add: set_current_page_def Let_def log_call_def handle_page_switch_def
        split: option.splits)

lemma tasks_do_activate_again:
  assumes "primary app"
  shows "\<exists>app'. do_activate res app = Inr app' \<and> tasks app' = tasks app"
  using assms
  by (simp add: do_activate_def Let_def tasks_set_current_page window_hide_def
        window_present_def log_call_def split: option.splits)

text \<open>
  C8. \<^verbatim>\<open>perform_setup\<close> constructs one \<^verbatim>\<open>DesktopFileManager\<close> and one \<^verbatim>\<open>VMManager\<close>, keeps
  them in the application's attributes, and hands these same two objects to the pages it
  registers: the search, application and favorites pages get both, the settings page
  gets the desktop file manager and takes no VM manager. Over any run of the program
  no second object of either class is constructed.
\<close>

theorem perform_setup_shares_one_model:
  "constructed (perform_setup res app)
     = constructed app @
       [(next_ref app, Builder_class), (next_ref app + 1, DesktopFileManager_class),
        (next_ref app + 2, VMManager_class), (next_ref app + 3, SearchPage_class),
        (next_ref app + 4, AppPage_class), (next_ref app + 5, FavoritesPage_class),
        (next_ref app + 6, SettingsPage_class)]
   \<and> desktop_file_manager (perform_setup res app) = Some (next_ref app + 1)
   \<and> vm_manager (perform_setup res app) = Some (next_ref app + 2)
   \<and> map (\<lambda>h. (fst h, page_desktop_file_manager (snd h), page_vm_manager (snd h)))
         (handlers (perform_setup res app))
       = [(''search_page'', next_ref app + 1, Some (next_ref app + 2)),
          (''app_page'', next_ref app + 1, Some (next_ref app + 2)),
          (''favorites_page'', next_ref app + 1, Some (next_ref app + 2)),
          (''settings_page'', next_ref app + 1, None)]
   \<and> map snd (constructed (app_menu (run res evs (main q d))))
       = (if activations evs = 0 then []
          else [Builder_class, DesktopFileManager_class, VMManager_class, SearchPage_class,
                AppPage_class, FavoritesPage_class, SettingsPage_class])"
proof -
  have "map (\<lambda>h. (fst h, page_desktop_file_manager (snd h), page_vm_manager (snd h)))
          (handlers (perform_setup res app))
        = map ((\<lambda>(n, c, qa, vmm, b, dfm, dp). (n, dfm, vmm)) \<circ> page_arguments)
            (handlers (perform_setup res app))"
    by (simp add: page_arguments_def comp_def)
  also have "\<dots> = map (\<lambda>(n, c, qa, vmm, b, dfm, dp). (n, dfm, vmm))
                     (map page_arguments (handlers (perform_setup res app)))"
    by simp
  also have "\<dots> = [(''search_page'', next_ref app + 1, Some (next_ref app + 2)),
          (''app_page'', next_ref app + 1, Some (next_ref app + 2)),
          (''favorites_page'', next_ref app + 1, Some (next_ref app + 2)),
          (''settings_page'', next_ref app + 1, None)]"
    by (simp only: perform_setup_handlers) simp
  finally have pages: "map (\<lambda>h. (fst h, page_desktop_file_manager (snd h), page_vm_manager (snd h)))
          (handlers (perform_setup res app))
        = [(''search_page'', next_ref app + 1, Some (next_ref app + 2)),
          (''app_page'', next_ref app + 1, Some (next_ref app + 2)),
          (''favorites_page'', next_ref app + 1, Some (next_ref app + 2)),
          (''settings_page'', next_ref app + 1, None)]" .
  have life: "map snd (constructed (app_menu (run res evs (main q d))))
       = (if activations evs = 0 then []
          else [Builder_class, DesktopFileManager_class, VMManager_class, SearchPage_class,
                AppPage_class, FavoritesPage_class, SettingsPage_class])"
    using run_effect [of res evs "main q d"] by (simp add: main_fields)
  from pages life show ?thesis
    by (simp add: perform_setup_fields)
qed

text \<open>
  C9. While \<^verbatim>\<open>OPEN_MENUS\<close> is positive a focus-out leaves the application as it is.
  Otherwise it calls \<^verbatim>\<open>hide_menu\<close>, which on an application that has been set up first
  initializes the search page and then hides the window exactly when \<^verbatim>\<open>keep_visible\<close>
  is false.
\<close>

theorem focus_out_hides_only_without_open_menus:
  assumes "map_of (handlers app) ''search_page'' = Some page"
    and "main_window app = Some w"
  shows "(if 0 < open_menus then focus_out open_menus app = Inr app
          else focus_out open_menus app = hide_menu app)
       \<and> (\<exists>app'. hide_menu app = Inr app'
             \<and> trace app' = trace app @ Initialize_page ''search_page''
                                # (if keep_visible app then [] else [Hide])
             \<and> main_window app'
                 = Some (w\<lparr>window_visible := window_visible w \<and> keep_visible app\<rparr>)
             \<and> map_of (handlers app') ''search_page'' = Some (initialize_page page))"
proof -
  from hide_menu_after_setup [OF assms] obtain app' where
    h: "hide_menu app = Inr app'"
       "trace app' = trace app @ Initialize_page ''search_page''
                                # (if keep_visible app then [] else [Hide])"
       "main_window app' = Some (w\<lparr>window_visible := window_visible w \<and> keep_visible app\<rparr>)"
       "handlers app' = initialize_handler ''search_page'' (handlers app)"
    by blast
  from h(4) assms(1) have "map_of (handlers app') ''search_page'' = Some (initialize_page page)"
    by (simp add: map_of_initialize_handler)
  with h show ?thesis
    by (simp add: focus_out_def)
qed

lemmas app_defs = main_def AppMenu_init_def keep_on_error_def do_activate_def
  perform_setup_def construct_def log_call_def load_style_def initialize_state_def
  set_current_page_def handle_page_switch_def window_show_all_def initialize_page_def
  sample_resources_def OPEN_MENUS_initial_def Let_def

theorem focus_out_hides_only_without_open_menus_witness:
  "focus_out 1 (app_menu (run sample_resources [Activate] (main 1 2)))
     = Inr (app_menu (run sample_resources [Activate] (main 1 2)))
   \<and> focus_out 0 (app_menu (run sample_resources [Activate] (main 1 2)))
     = hide_menu (app_menu (run sample_resources [Activate] (main 1 2)))
   \<and> (\<exists>app'. hide_menu (app_menu (run sample_resources [Activate] (main 1 2))) = Inr app'
         \<and> trace app' = trace (app_menu (run sample_resources [Activate] (main 1 2)))
                           @ [Initialize_page ''search_page'', Hide]
         \<and> main_window app' = Some \<lparr>window_visible = False\<rparr>)"
proof -
  let ?app = "app_menu (run sample_resources [Activate] (main 1 2))"
  have page: "map_of (handlers ?app) ''search_page''
     = Some \<lparr>page_ref = 6, page_class = SearchPage_class, page_qapp = None,
              page_vm_manager = Some 5, page_builder = 3,
              page_desktop_file_manager = 4, page_dispatcher = None, initialized = 1\<rparr>"
    by (simp add: app_defs)
  have window: "main_window ?app = Some \<lparr>window_visible = True\<rparr>"
    by (simp add: app_defs)
  have keep: "keep_visible ?app = False"
    by (simp add: app_defs)
  from focus_out_hides_only_without_open_menus [OF page window, of 1]
  have open_menu: "focus_out 1 ?app = Inr ?app"
    by simp
  from focus_out_hides_only_without_open_menus [OF page window, of 0] keep
  have "focus_out 0 ?app = hide_menu ?app
        \<and> (\<exists>app'. hide_menu ?app = Inr app'
             \<and> trace app' = trace ?app @ [Initialize_page ''search_page'', Hide]
             \<and> main_window app' = Some \<lparr>window_visible = False\<rparr>)"
    by auto
  with open_menu show ?thesis by blast
qed


text \<open>
  C2. The first activation starts exactly one listener task and waits for it with
  \<^verbatim>\<open>FIRST_EXCEPTION\<close>; a later activation starts none and leaves the task list alone.
  When the listener raises, the wait is over with the failed task among the done
  tasks, but \<^verbatim>\<open>do_activate\<close> drops that value and returns as after any other call: the
  exception is not raised to the caller. While the listener runs, the call does not
  return.
\<close>

theorem listener_failure_is_dropped:
  "(\<exists>app'. do_activate res (app\<lparr>primary := False\<rparr>) = Inr app'
      \<and> tasks app' = [Listen_for_events (dispatcher app)]
      \<and> asyncio_wait_FIRST_EXCEPTION (map (\<lambda>t. (t, Raises e)) (tasks app'))
          = Some \<lparr>wait_done = [(Listen_for_events (dispatcher app), Raises e)],
                  wait_pending = []\<rparr>
      \<and> do_activate_returns res (\<lambda>t. Raises e) (app\<lparr>primary := False\<rparr>) = Some (Inr app')
      \<and> do_activate_returns res (\<lambda>t. Runs_forever) (app\<lparr>primary := False\<rparr>) = None)
   \<and> (\<exists>app' calls. do_activate res (app\<lparr>primary := True\<rparr>) = Inr app'
         \<and> tasks app' = tasks app
         \<and> trace app' = trace app @ calls
         \<and> set calls \<subseteq> {Set_current_page (initial_page app), Hide, Present}
                           \<union> range Initialize_page)"
proof -
  have np: "\<not> primary (app\<lparr>primary := False\<rparr>)" by simp
  from do_activate_first [OF np, of res] obtain app1 where
    a: "do_activate res (app\<lparr>primary := False\<rparr>) = Inr app1"
       "tasks app1 = [Listen_for_events (dispatcher app)]"
    by auto
  have w: "asyncio_wait_FIRST_EXCEPTION (map (\<lambda>t. (t, Raises e)) (tasks app1))
          = Some \<lparr>wait_done = [(Listen_for_events (dispatcher app), Raises e)],
                  wait_pending = []\<rparr>"
    by (simp add: a(2) asyncio_wait_FIRST_EXCEPTION_def)
  have r: "do_activate_returns res (\<lambda>t. Raises e) (app\<lparr>primary := False\<rparr>) = Some (Inr app1)"
    by (simp add: do_activate_returns_def a(1) w)
  have f: "do_activate_returns res (\<lambda>t. Runs_forever) (app\<lparr>primary := False\<rparr>) = None"
    by (simp add: do_activate_returns_def a asyncio_wait_FIRST_EXCEPTION_def)
  have p: "primary (app\<lparr>primary := True\<rparr>)" by simp
  from tasks_do_activate_again [OF p, of res] obtain app2 where
    b: "do_activate res (app\<lparr>primary := True\<rparr>) = Inr app2" "tasks app2 = tasks app"
    by auto
  from do_activate_again_calls [OF p, of res] b(1) obtain calls where
    c: "trace app2 = trace app @ calls"
       "set calls \<subseteq> {Set_current_page (initial_page app), Hide, Present}
                           \<union> range Initialize_page"
    by auto
  from a w r f b c show ?thesis by blast
qed

end
